theory Spec2Isabelle
  imports Complex_Main
begin

section \<open>Strings\<close>

text \<open>
  The texts of the engine and of the editor are modelled as \<^typ>\<open>string\<close>, one
  \<^typ>\<open>char\<close> per code point, which covers the code points below 256. \<open>isspace\<close> is
  Python's \<open>str.isspace\<close> on that range: tab, line feed, vertical tab, form feed,
  carriage return, the separators \<open>0x1C\<close>..\<open>0x1F\<close>, the space, \<open>0x85\<close> and \<open>0xA0\<close>.
\<close>

datatype py_error = ValueError

definition isspace :: "char \<Rightarrow> bool" where
  "isspace c =
     (let n = (of_char c :: nat)
      in (9 \<le> n \<and> n \<le> 13) \<or> (28 \<le> n \<and> n \<le> 32) \<or> n = 133 \<or> n = 160)"

definition newline :: char where
  "newline = CHR 0x0A"

definition space :: char where
  "space = CHR '' ''"

text \<open>
  \<open>str.lower\<close> is the lower-casing of the Unicode character database, which is not part
  of the program: the functions that call it take it as the parameter \<open>lower\<close>, a function
  from texts to texts. \<open>str_lower\<close> is what it does on ASCII text, the letters \<open>A\<close>..\<open>Z\<close>
  going to \<open>a\<close>..\<open>z\<close>. The functions of the overlap resolver do not depend on the type of
  the characters; they take the whitespace test as the parameter \<open>sp\<close> and the space
  character of the literal \<open>" "\<close> as the parameter \<open>blank\<close>, so that they can be run on texts
  beyond the range of \<^typ>\<open>char\<close>, with code points as natural numbers. There,
  \<open>unicode_isspace\<close> is \<open>str.isspace\<close> on every code point, and \<open>lower_dotted\<close> is
  \<open>str.lower\<close> on the texts made of ASCII characters and of U+0130, the capital I with a
  dot above, which lower-cases to the two code points U+0069 U+0307.
\<close>

definition lower_char :: "char \<Rightarrow> char" where
  "lower_char c =
     (let n = (of_char c :: nat) in if 65 \<le> n \<and> n \<le> 90 then char_of (n + 32) else c)"

definition str_lower :: "string \<Rightarrow> string" where
  "str_lower s = map lower_char s"

definition unicode_isspace :: "nat \<Rightarrow> bool" where
  "unicode_isspace n =
     ((9 \<le> n \<and> n \<le> 13) \<or> (28 \<le> n \<and> n \<le> 32) \<or> n = 133 \<or> n = 160 \<or> n = 5760
      \<or> (8192 \<le> n \<and> n \<le> 8202) \<or> n = 8232 \<or> n = 8233 \<or> n = 8239 \<or> n = 8287
      \<or> n = 12288)"

definition lower_dotted :: "nat list \<Rightarrow> nat list" where
  "lower_dotted s =
     concat (map (\<lambda>n. if n = 304 then [105, 775]
                        else if 65 \<le> n \<and> n \<le> 90 then [n + 32] else [n]) s)"

text \<open>\<open>s.startswith(p)\<close>, \<open>s.find(p)\<close> (\<open>None\<close> for Python's \<open>-1\<close>; \<open>p in s\<close> is
  \<open>s.find(p) \<noteq> -1\<close>), \<open>s.split()\<close>, \<open>s.strip()\<close>, \<open>sep.join(ws)\<close> and \<open>ws.index(x)\<close>,
  which raises \<open>ValueError\<close> when \<open>x\<close> is absent.\<close>

definition startswith :: "'a list \<Rightarrow> 'a list \<Rightarrow> bool" where
  "startswith s p = (take (length p) s = p)"

fun str_find :: "'a list \<Rightarrow> 'a list \<Rightarrow> nat option" where
  "str_find [] p = (if p = [] then Some 0 else None)"
| "str_find (c # s) p =
     (if startswith (c # s) p then Some 0 else map_option Suc (str_find s p))"

fun split_acc :: "('a \<Rightarrow> bool) \<Rightarrow> 'a list \<Rightarrow> 'a list \<Rightarrow> 'a list list" where
  "split_acc sp cur [] = (if cur = [] then [] else [cur])"
| "split_acc sp cur (c # s) =
     (if sp c then (if cur = [] then split_acc sp [] s else cur # split_acc sp [] s)
      else split_acc sp (cur @ [c]) s)"

definition str_split :: "('a \<Rightarrow> bool) \<Rightarrow> 'a list \<Rightarrow> 'a list list" where
  "str_split sp s = split_acc sp [] s"

definition str_strip :: "string \<Rightarrow> string" where
  "str_strip s = rev (dropWhile isspace (rev (dropWhile isspace s)))"

fun str_join :: "'a list \<Rightarrow> 'a list list \<Rightarrow> 'a list" where
  "str_join sep [] = []"
| "str_join sep [w] = w"
| "str_join sep (w # ws) = w @ sep @ str_join sep ws"

fun list_index :: "'a list \<Rightarrow> 'a \<Rightarrow> py_error + nat" where
  "list_index [] x = Inl ValueError"
| "list_index (y # ys) x =
     (if y = x then Inr 0
      else case list_index ys x of Inl e \<Rightarrow> Inl e | Inr i \<Rightarrow> Inr (Suc i))"

section \<open>The overlap resolver: \<open>CodeEditor._trim_completion_overlap\<close>\<close>

text \<open>
  The \<open>for\<close> loop of strategy 3 runs over \<open>completion_words\<close>; the last argument of
  \<open>strategy3\<close> is the part of the list still to visit, \<open>completion_words\<close> the whole list,
  which the body searches again with \<open>index\<close>. The loop returns \<open>Some trimmed\<close> at the first
  word that matches and \<open>None\<close> when it runs to its end.
\<close>

fun strategy3 ::
  "('a list \<Rightarrow> 'a list) \<Rightarrow> 'a \<Rightarrow> 'a list list \<Rightarrow> 'a list \<Rightarrow> 'a list list
     \<Rightarrow> py_error + 'a list option" where
  "strategy3 lower blank completion_words current_word [] = Inr None"
| "strategy3 lower blank completion_words current_word (word # rest) =
     (if startswith (lower word) (lower current_word) then
        (let remaining_of_word = drop (length current_word) word in
         case list_index completion_words word of
           Inl e \<Rightarrow> Inl e
         | Inr word_index \<Rightarrow>
             (let remaining_words = drop (word_index + 1) completion_words in
              if remaining_words \<noteq> []
              then Inr (Some (remaining_of_word @ [blank] @ str_join [blank] remaining_words))
              else Inr (Some remaining_of_word)))
      else strategy3 lower blank completion_words current_word rest)"

definition trim_completion_overlap ::
  "('a list \<Rightarrow> 'a list) \<Rightarrow> ('a \<Rightarrow> bool) \<Rightarrow> 'a \<Rightarrow> 'a list \<Rightarrow> 'a list
     \<Rightarrow> py_error + 'a list" where
  "trim_completion_overlap lower sp blank current_word completion =
     (if current_word = [] then Inr completion
      else if startswith (lower completion) (lower current_word)
      then Inr (drop (length current_word) completion)
      else
        (let completion_lower = lower completion;
             current_word_lower = lower current_word in
         case str_find completion_lower current_word_lower of
           Some pos \<Rightarrow> Inr (drop (pos + length current_word) completion)
         | None \<Rightarrow>
             (let completion_words = str_split sp completion in
              case strategy3 lower blank completion_words current_word completion_words of
                Inl e \<Rightarrow> Inl e
              | Inr (Some trimmed) \<Rightarrow> Inr trimmed
              | Inr None \<Rightarrow> Inr completion)))"

text \<open>
  The resolver as the specification words it: rule 0 (empty current word), then prefix
  match, substring match at the first occurrence, token-prefix match, and the fallback;
  matching ignores case, the output is cut from the text as given. A text starts with a
  word, case ignored, when its first characters, as many as the word has, lower-case to
  the lower-cased word; the word occurs at a position when the text from that position on
  starts with it.
\<close>

definition starts_with_ci :: "('a list \<Rightarrow> 'a list) \<Rightarrow> 'a list \<Rightarrow> 'a list \<Rightarrow> bool" where
  "starts_with_ci lower s w = (lower (take (length w) s) = lower w)"

definition first_occurrence_ci ::
  "('a list \<Rightarrow> 'a list) \<Rightarrow> 'a list \<Rightarrow> 'a list \<Rightarrow> nat option" where
  "first_occurrence_ci lower w s =
     List.find (\<lambda>i. starts_with_ci lower (drop i s) w) [0 ..< Suc (length s)]"

fun token_prefix_match ::
  "('a list \<Rightarrow> 'a list) \<Rightarrow> 'a \<Rightarrow> 'a list \<Rightarrow> 'a list list \<Rightarrow> 'a list option" where
  "token_prefix_match lower blank w [] = None"
| "token_prefix_match lower blank w (t # ts) =
     (if starts_with_ci lower t w
      then Some (drop (length w) t @ [blank] @ str_join [blank] ts)
      else token_prefix_match lower blank w ts)"

definition resolve ::
  "('a list \<Rightarrow> 'a list) \<Rightarrow> ('a \<Rightarrow> bool) \<Rightarrow> 'a \<Rightarrow> 'a list \<Rightarrow> 'a list \<Rightarrow> 'a list" where
  "resolve lower sp blank currentWord rawCompletion =
     (if currentWord = [] then rawCompletion
      else if starts_with_ci lower rawCompletion currentWord
      then drop (length currentWord) rawCompletion
      else case first_occurrence_ci lower currentWord rawCompletion of
             Some i \<Rightarrow> drop (i + length currentWord) rawCompletion
           | None \<Rightarrow>
               (case token_prefix_match lower blank currentWord (str_split sp rawCompletion) of
                  Some r \<Rightarrow> r
                | None \<Rightarrow> rawCompletion))"

section \<open>The completion engine: \<open>AICompletionEngine\<close>\<close>

text \<open>
  The configuration is the dictionary read from \<open>config.json\<close>, restricted to its numeric
  entries; \<open>config.get(key, default)\<close> is \<open>config_get\<close>. Clock readings are real numbers
  (milliseconds in the engine). The completion provider is outside the program: what it
  does on the one call a request makes is an input of the model, \<open>provider_outcome\<close>: it
  raises, it answers without content (no choices, or empty content), or it answers with
  a text.
\<close>

type_synonym config = "string \<rightharpoonup> real"

definition config_get :: "config \<Rightarrow> string \<Rightarrow> real \<Rightarrow> real" where
  "config_get cfg key dflt = (case cfg key of None \<Rightarrow> dflt | Some v \<Rightarrow> v)"

datatype provider_outcome =
    ProviderRaises string
  | ProviderNoContent
  | ProviderContent string

text \<open>
  \<open>get_completion\<close> returns \<open>Optional[str]\<close>. The model returns which \<open>return\<close> statement
  was taken; \<open>returned\<close> gives the Python value.
\<close>

datatype outcome =
    Debounced
  | CacheHit string
  | NoClient
  | NoCompletion
  | Completed string
  | Failed string

fun returned :: "outcome \<Rightarrow> string option" where
  "returned Debounced = None"
| "returned (CacheHit v) = Some v"
| "returned NoClient = None"
| "returned NoCompletion = None"
| "returned (Completed v) = Some v"
| "returned (Failed msg) = None"

text \<open>
  The fields of the engine. \<open>_completion_cache\<close> is a Python dictionary, which keeps its
  keys in insertion order: an association list, oldest entry first.
\<close>

record engine =
  client_ready :: bool
  last_request_time :: real
  completion_cache :: "(string \<times> string) list"
  last_request_prompt :: "string option"
  last_response :: "string option"

definition new_engine :: engine where
  "new_engine = \<lparr> client_ready = True, last_request_time = 0, completion_cache = [],
     last_request_prompt = None, last_response = None \<rparr>"

definition should_debounce :: "config \<Rightarrow> real \<Rightarrow> engine \<Rightarrow> bool \<times> engine" where
  "should_debounce cfg current_time e =
     (let delay_ms = config_get cfg ''completion_delay_ms'' 500 in
      if current_time - last_request_time e < delay_ms then (True, e)
      else (False, e\<lparr>last_request_time := current_time\<rparr>))"

definition str_remove :: "char \<Rightarrow> string \<Rightarrow> string" where
  "str_remove c s = filter (\<lambda>x. x \<noteq> c) s"

definition create_cache_key :: "string \<Rightarrow> string \<Rightarrow> string \<Rightarrow> string" where
  "create_cache_key context_before context_after cursor_line =
     (let combined = drop (length context_before - 100) context_before
                     @ cursor_line @ take 50 context_after
      in str_remove newline (str_remove space combined))"

definition build_completion_prompt :: "string \<Rightarrow> string \<Rightarrow> string \<Rightarrow> string" where
  "build_completion_prompt context_before cursor_line context_after =
     ''You are an AI coding assistant. Complete the Python code at the cursor position.''
     @ [newline, newline] @ ''Context before:'' @ [newline] @ context_before
     @ [newline, newline] @ ''Current line (cursor at end): '' @ cursor_line
     @ [newline, newline] @ ''Context after:'' @ [newline] @ context_after
     @ [newline, newline]
     @ ''Complete the code at the cursor position. Provide only the completion text, no explanations.''
     @ [newline] @ ''Focus on:''
     @ [newline] @ ''1. Syntactically correct Python code''
     @ [newline] @ ''2. Following the existing code style and patterns''
     @ [newline] @ ''3. Completing the current statement or adding the next logical statement''
     @ [newline] @ ''4. Keeping the completion concise and relevant''
     @ [newline, newline] @ ''Completion:''"

text \<open>
  \<open>d[k] = v\<close> keeps the place of a key that is present and appends a new one;
  \<open>del d[k]\<close> removes the key. \<open>cache_store\<close> is the tail of \<open>get_completion\<close>: the store
  and the clean-up, where \<open>next(iter(d))\<close> is the first key.
\<close>

fun dict_set :: "'k \<Rightarrow> 'v \<Rightarrow> ('k \<times> 'v) list \<Rightarrow> ('k \<times> 'v) list" where
  "dict_set k v [] = [(k, v)]"
| "dict_set k v ((k', v') # d) =
     (if k' = k then (k, v) # d else (k', v') # dict_set k v d)"

definition dict_del :: "'k \<Rightarrow> ('k \<times> 'v) list \<Rightarrow> ('k \<times> 'v) list" where
  "dict_del k d = filter (\<lambda>kv. fst kv \<noteq> k) d"

definition cache_store :: "string \<Rightarrow> string \<Rightarrow> (string \<times> string) list \<Rightarrow> (string \<times> string) list" where
  "cache_store cache_key completion cache =
     (let cache1 = dict_set cache_key completion cache in
      if length cache1 > 50 then
        (case cache1 of [] \<Rightarrow> cache1 | (oldest_key, _) # _ \<Rightarrow> dict_del oldest_key cache1)
      else cache1)"

definition get_completion ::
  "config \<Rightarrow> real \<Rightarrow> string \<Rightarrow> string \<Rightarrow> string \<Rightarrow> provider_outcome \<Rightarrow> engine
     \<Rightarrow> outcome \<times> engine" where
  "get_completion cfg now context_before cursor_line context_after provider e =
     (let e0 = e\<lparr>last_request_prompt := None, last_response := None\<rparr> in
      case should_debounce cfg now e0 of
        (True, e1) \<Rightarrow> (Debounced, e1)
      | (False, e1) \<Rightarrow>
          (let cache_key = create_cache_key context_before context_after cursor_line in
           case map_of (completion_cache e1) cache_key of
             Some cached \<Rightarrow> (CacheHit cached, e1)
           | None \<Rightarrow>
               (let prompt = build_completion_prompt context_before cursor_line context_after;
                    e2 = e1\<lparr>last_request_prompt := Some prompt\<rparr> in
                if \<not> client_ready e2 then (NoClient, e2)
                else case provider of
                  ProviderRaises msg \<Rightarrow>
                    (Failed msg, e2\<lparr>last_response := Some (''ERROR: '' @ msg)\<rparr>)
                | ProviderNoContent \<Rightarrow>
                    (NoCompletion, e2\<lparr>last_response := Some ''No completion received''\<rparr>)
                | ProviderContent content \<Rightarrow>
                    if content = [] then
                      (NoCompletion, e2\<lparr>last_response := Some ''No completion received''\<rparr>)
                    else
                      (let completion = str_strip content;
                           e3 = e2\<lparr>last_response := Some completion\<rparr>;
                           e4 = e3\<lparr>completion_cache :=
                                   cache_store cache_key completion (completion_cache e3)\<rparr>
                       in (Completed completion, e4)))))"

text \<open>
  A run of the engine: the requests are served one after the other, each with its clock
  reading, its context and the provider's behaviour. \<open>stored_entries\<close> lists, in order,
  the entries that the run wrote into the cache.
\<close>

type_synonym request = "real \<times> string \<times> string \<times> string \<times> provider_outcome"

fun serve :: "config \<Rightarrow> request \<Rightarrow> engine \<Rightarrow> outcome \<times> engine" where
  "serve cfg (now, context_before, cursor_line, context_after, provider) e =
     get_completion cfg now context_before cursor_line context_after provider e"

fun request_key :: "request \<Rightarrow> string" where
  "request_key (now, context_before, cursor_line, context_after, provider) =
     create_cache_key context_before context_after cursor_line"

fun run_requests :: "config \<Rightarrow> engine \<Rightarrow> request list \<Rightarrow> engine" where
  "run_requests cfg e [] = e"
| "run_requests cfg e (r # rs) = run_requests cfg (snd (serve cfg r e)) rs"

fun stored_entries :: "config \<Rightarrow> engine \<Rightarrow> request list \<Rightarrow> (string \<times> string) list" where
  "stored_entries cfg e [] = []"
| "stored_entries cfg e (r # rs) =
     (case serve cfg r e of
        (Completed completion, e') \<Rightarrow> (request_key r, completion) # stored_entries cfg e' rs
      | (_, e') \<Rightarrow> stored_entries cfg e' rs)"

definition cache_ok :: "(string \<times> string) list \<Rightarrow> bool" where
  "cache_ok c = (distinct (map fst c) \<and> length c \<le> 50)"

text \<open>
  A full cache: fifty entries, the oldest first, under the keys \<open>k\<close>, \<open>kk\<close>, \<open>kkk\<close> and so
  on, in an engine whose last admitted request was at 1000.
\<close>

definition fifty_entries :: "(string \<times> string) list" where
  "fifty_entries = map (\<lambda>i. (replicate (Suc i) CHR ''k'', ''v'')) [0 ..< 50]"

definition full_engine :: engine where
  "full_engine = new_engine\<lparr>last_request_time := 1000, completion_cache := fifty_entries\<rparr>"

text \<open>
  The configured minimum interval between requests, and the two notions the cache key is
  described with: the last \<open>n\<close> characters of a text (\<open>s[-n:]\<close>), and a text with its space
  and line-feed characters removed.
\<close>

definition delay_ms :: "config \<Rightarrow> real" where
  "delay_ms cfg = config_get cfg ''completion_delay_ms'' 500"

definition strip_space_newline :: "string \<Rightarrow> string" where
  "strip_space_newline s = filter (\<lambda>c. c \<noteq> CHR '' '' \<and> c \<noteq> CHR 0x0A) s"

definition last_chars :: "nat \<Rightarrow> string \<Rightarrow> string" where
  "last_chars n s = drop (length s - n) s"

section \<open>The editor: \<open>CodeEditor\<close>\<close>

text \<open>
  The Tk text widget is outside the program; the model keeps what the editor's code
  observes of it. The buffer is the sequence of the widget's characters, each with a flag
  telling whether it carries the \<open>ghost_text\<close> tag (the newline that Tk keeps at the very
  end of a widget is left out). An index \<open>"L.C"\<close> is a pair of a line number, counted from
  1, and a column, counted from 0; the widget resolves it against its current text, a
  column past the end of the line meaning the end of the line and a line past the last
  one the end of the text. \<open>line_at\<close> is \<open>get("L.0", "L.end")\<close>, \<open>tk_offset\<close> the place an
  index denotes, \<open>tk_index_of\<close> the index the widget prints for a place, and
  \<open>tk_plus_chars\<close> the index arithmetic \<open>"+Nc"\<close>. Every index the editor stores was printed
  by the widget, so the widget never rejects one, and the \<open>TclError\<close> handler of
  \<open>clear_ghost_text\<close> (which only falls through to the clearing of the two fields) has no
  branch of its own.
\<close>

type_synonym tk_index = "nat \<times> nat"

type_synonym tchar = "char \<times> bool"

fun line_at :: "string \<Rightarrow> nat \<Rightarrow> string" where
  "line_at s 0 = takeWhile (\<lambda>x. x \<noteq> newline) s"
| "line_at s (Suc 0) = takeWhile (\<lambda>x. x \<noteq> newline) s"
| "line_at s (Suc (Suc l)) =
     (case dropWhile (\<lambda>x. x \<noteq> newline) s of
        [] \<Rightarrow> []
      | _ # rest \<Rightarrow> line_at rest (Suc l))"

fun tk_offset :: "string \<Rightarrow> nat \<Rightarrow> nat \<Rightarrow> nat" where
  "tk_offset s 0 c = min c (length (takeWhile (\<lambda>x. x \<noteq> newline) s))"
| "tk_offset s (Suc 0) c = min c (length (takeWhile (\<lambda>x. x \<noteq> newline) s))"
| "tk_offset s (Suc (Suc l)) c =
     (case dropWhile (\<lambda>x. x \<noteq> newline) s of
        [] \<Rightarrow> length s
      | _ # rest \<Rightarrow> length (takeWhile (\<lambda>x. x \<noteq> newline) s) + 1 + tk_offset rest (Suc l) c)"

definition tk_index_of :: "string \<Rightarrow> nat \<Rightarrow> tk_index" where
  "tk_index_of s off =
     (Suc (length (filter (\<lambda>x. x = newline) (take off s))),
      length (takeWhile (\<lambda>x. x \<noteq> newline) (rev (take off s))))"

definition tk_total_lines :: "string \<Rightarrow> nat" where
  "tk_total_lines s = Suc (length (filter (\<lambda>x. x = newline) s))"

definition tk_line_end_col :: "string \<Rightarrow> nat \<Rightarrow> nat" where
  "tk_line_end_col s l = length (line_at s l)"

definition tk_plus_chars :: "'a list \<Rightarrow> nat \<Rightarrow> nat \<Rightarrow> nat" where
  "tk_plus_chars buf off n = min (off + n) (length buf)"

definition tk_get :: "tchar list \<Rightarrow> nat \<Rightarrow> nat \<Rightarrow> string" where
  "tk_get buf o1 o2 = map fst (take (o2 - o1) (drop o1 buf))"

definition tk_tagged :: "tchar list \<Rightarrow> nat \<Rightarrow> bool" where
  "tk_tagged buf off = (case drop off buf of [] \<Rightarrow> False | (_, tag) # _ \<Rightarrow> tag)"

definition tk_delete :: "tchar list \<Rightarrow> nat \<Rightarrow> nat \<Rightarrow> tchar list" where
  "tk_delete buf o1 o2 = (if o1 < o2 then take o1 buf @ drop o2 buf else buf)"

definition tk_insert :: "tchar list \<Rightarrow> nat \<Rightarrow> string \<Rightarrow> bool \<Rightarrow> tchar list" where
  "tk_insert buf off txt tag = take off buf @ map (\<lambda>c. (c, tag)) txt @ drop off buf"

definition tk_tag_remove :: "tchar list \<Rightarrow> nat \<Rightarrow> nat \<Rightarrow> tchar list" where
  "tk_tag_remove buf o1 o2 =
     take o1 buf @ map (\<lambda>tc. (fst tc, False)) (take (o2 - o1) (drop o1 buf)) @ drop (max o1 o2) buf"

text \<open>
  The insertion cursor is the mark \<open>insert\<close>. A deletion before it moves it back; text
  inserted at it moves it forward, which is why \<open>_show_completion\<close> sets it again.
\<close>

definition mark_after_delete :: "nat \<Rightarrow> nat \<Rightarrow> nat \<Rightarrow> nat" where
  "mark_after_delete m o1 o2 =
     (if o2 \<le> o1 \<or> m \<le> o1 then m else if o2 \<le> m then m - (o2 - o1) else o1)"

text \<open>
  The fields of the editor that the completion pipeline reads and writes, with the
  widget's buffer and cursor. \<open>ai_engine_present\<close> is \<open>self.ai_engine\<close> being set,
  \<open>ai_enabled\<close> the check box, \<open>status\<close> the text of the status bar.
\<close>

record editor =
  buffer :: "tchar list"
  insert_mark :: nat
  ghost_text_start_pos :: "tk_index option"
  current_completion :: string
  last_completion_request :: real
  ai_engine_present :: bool
  ai_enabled :: bool
  status :: string

definition new_editor :: "bool \<Rightarrow> editor" where
  "new_editor engine_ok = \<lparr> buffer = [], insert_mark = 0, ghost_text_start_pos = None,
     current_completion = [], last_completion_request = 0, ai_engine_present = engine_ok,
     ai_enabled = engine_ok,
     status = ''Ready - Start typing Python code for AI completions!'' \<rparr>"

definition editor_text :: "editor \<Rightarrow> string" where
  "editor_text ed = map fst (buffer ed)"

definition index_insert :: "editor \<Rightarrow> tk_index" where
  "index_insert ed = tk_index_of (editor_text ed) (insert_mark ed)"

definition resolve_index :: "editor \<Rightarrow> tk_index \<Rightarrow> nat" where
  "resolve_index ed pos = tk_offset (editor_text ed) (fst pos) (snd pos)"

text \<open>
  \<open>clear_ghost_text\<close> and \<open>accept_completion\<close>. The guard
  \<open>self.ghost_text_start_pos and self.current_completion\<close> holds when the position is set
  and the text is not empty.
\<close>

definition clear_ghost_text :: "editor \<Rightarrow> editor" where
  "clear_ghost_text ed =
     (case ghost_text_start_pos ed of
        None \<Rightarrow> ed
      | Some start_pos \<Rightarrow>
          if current_completion ed = [] then ed
          else
            (let start_off = resolve_index ed start_pos;
                 end_off = tk_plus_chars (buffer ed) start_off (length (current_completion ed));
                 actual_text = tk_get (buffer ed) start_off end_off;
                 ghost_tag = tk_tagged (buffer ed) start_off;
                 ed1 = (if ghost_tag \<and> actual_text = current_completion ed
                        then ed\<lparr>buffer := tk_delete (buffer ed) start_off end_off,
                                insert_mark := mark_after_delete (insert_mark ed) start_off end_off\<rparr>
                        else ed)
             in ed1\<lparr>ghost_text_start_pos := None, current_completion := []\<rparr>))"

definition accept_completion :: "editor \<Rightarrow> editor" where
  "accept_completion ed =
     (case ghost_text_start_pos ed of
        None \<Rightarrow> ed
      | Some start_pos \<Rightarrow>
          if current_completion ed = [] then ed
          else
            (let start_off = resolve_index ed start_pos;
                 end_off = tk_plus_chars (buffer ed) start_off (length (current_completion ed))
             in ed\<lparr>buffer := tk_tag_remove (buffer ed) start_off end_off,
                   insert_mark := end_off,
                   ghost_text_start_pos := None,
                   current_completion := [],
                   status := ''Completion accepted!''\<rparr>))"

text \<open>
  \<open>get_context_around_cursor\<close> returns the context before, the current line and the
  context after. \<open>request_ai_completion\<close> takes the reading of the clock (in seconds) and
  returns the editor with, when it starts the completion thread, the arguments handed to
  it: the three context strings and the cursor position.
\<close>

definition get_context_around_cursor :: "editor \<Rightarrow> string \<times> string \<times> string" where
  "get_context_around_cursor ed =
     (let cursor_pos = index_insert ed;
          cursor_line_num = fst cursor_pos;
          line_start = resolve_index ed (cursor_line_num, 0);
          current_line =
            (case ghost_text_start_pos ed of
               Some ghost_pos \<Rightarrow>
                 if fst ghost_pos = cursor_line_num
                 then tk_get (buffer ed) line_start (resolve_index ed ghost_pos)
                 else tk_get (buffer ed) line_start (resolve_index ed cursor_pos)
             | None \<Rightarrow> tk_get (buffer ed) line_start (resolve_index ed cursor_pos));
          start_line = max 1 (cursor_line_num - 10);
          lines_before = filter (\<lambda>line_content. str_strip line_content \<noteq> [])
                           (map (line_at (editor_text ed)) [start_line ..< cursor_line_num]);
          context_before = str_join [newline] (drop (length lines_before - 10) lines_before);
          total_lines = tk_total_lines (editor_text ed);
          end_line = min total_lines (cursor_line_num + 5);
          lines_after = filter (\<lambda>line_content. str_strip line_content \<noteq> [])
                          (map (line_at (editor_text ed)) [cursor_line_num + 1 ..< end_line + 1]);
          context_after = str_join [newline] (take 5 lines_after)
      in (context_before, current_line, context_after))"

type_synonym completion_job = "string \<times> string \<times> string \<times> tk_index"

definition request_ai_completion :: "real \<Rightarrow> editor \<Rightarrow> editor \<times> completion_job option" where
  "request_ai_completion current_time ed =
     (if \<not> ai_engine_present ed \<or> \<not> ai_enabled ed then (ed, None)
      else if current_time - last_completion_request ed < 0.5 then (ed, None)
      else
        (let ed1 = ed\<lparr>last_completion_request := current_time\<rparr>;
             (context_before, current_line, context_after) = get_context_around_cursor ed1;
             cursor_pos = index_insert ed1;
             cursor_line_num = fst cursor_pos;
             cursor_col_num = snd cursor_pos;
             logical_line_end_col =
               (case ghost_text_start_pos ed1 of
                  Some ghost_pos \<Rightarrow>
                    if fst ghost_pos = cursor_line_num then snd ghost_pos
                    else tk_line_end_col (editor_text ed1) cursor_line_num
                | None \<Rightarrow> tk_line_end_col (editor_text ed1) cursor_line_num)
         in if length (str_strip current_line) < 1 then (ed1, None)
            else if int cursor_col_num < int logical_line_end_col - 1 then (ed1, None)
            else (ed1\<lparr>status := ''Requesting AI completion...''\<rparr>,
                  Some (context_before, current_line, context_after, cursor_pos))))"

text \<open>
  \<open>_show_completion\<close> runs on the interface thread with the completion and the cursor
  position recorded by the request; \<open>lower\<close> is \<open>str.lower\<close>. An exception in the callback
  ends it where it is.
\<close>

definition show_completion ::
  "(string \<Rightarrow> string) \<Rightarrow> string \<Rightarrow> tk_index \<Rightarrow> editor \<Rightarrow> editor" where
  "show_completion lower completion cursor_pos ed =
     (if index_insert ed \<noteq> cursor_pos then ed
      else
        (let ed1 = clear_ghost_text ed;
             completion1 = str_strip completion
         in if completion1 = [] then ed1
            else
              (let line_start = resolve_index ed1 (fst cursor_pos, 0);
                   cursor_off = resolve_index ed1 cursor_pos;
                   current_line_text = tk_get (buffer ed1) line_start cursor_off;
                   words = str_split isspace current_line_text;
                   current_word = (if words \<noteq> [] then last words else [])
               in case trim_completion_overlap lower isspace space current_word completion1 of
                    Inl _ \<Rightarrow> ed1
                  | Inr trimmed_completion \<Rightarrow>
                      if trimmed_completion = [] then ed1
                      else
                        (let buf2 = tk_insert (buffer ed1) cursor_off trimmed_completion True;
                             ed2 = ed1\<lparr>buffer := buf2,
                                       ghost_text_start_pos := Some cursor_pos,
                                       current_completion := trimmed_completion\<rparr>
                         in ed2\<lparr>insert_mark := resolve_index ed2 cursor_pos,
                                 status := ''Completion ready - Press Tab to accept, or keep typing to dismiss''\<rparr>))))"







text \<open>
  A suggestion is active when both fields are set; the anchored span is the text that
  the buffer holds at the anchor over the length of the suggestion; the two fields are
  consistent when the position is unset exactly when the text is empty.
\<close>

definition suggestion_active :: "editor \<Rightarrow> bool" where
  "suggestion_active ed = (ghost_text_start_pos ed \<noteq> None \<and> current_completion ed \<noteq> [])"

definition anchored_span :: "editor \<Rightarrow> string" where
  "anchored_span ed =
     (case ghost_text_start_pos ed of
        None \<Rightarrow> []
      | Some anchor \<Rightarrow>
          take (length (current_completion ed)) (drop (resolve_index ed anchor) (editor_text ed)))"

definition suggestion_consistent :: "editor \<Rightarrow> bool" where
  "suggestion_consistent ed = ((ghost_text_start_pos ed = None) = (current_completion ed = []))"

definition suggestion_of :: "editor \<Rightarrow> tk_index option \<times> string" where
  "suggestion_of ed = (ghost_text_start_pos ed, current_completion ed)"

text \<open>
  Three states of the editor. In \<open>typing_state\<close> the line is \<open>ab\<close> with the cursor at its
  end and no suggestion. In \<open>home_key_state\<close> the line is \<open>x\<close> followed by the suggestion
  \<open>yz\<close>, shown at column 1, and the cursor is at column 0: the state after the Home key,
  which \<open>on_key_press\<close> counts among the keys that do not dismiss the suggestion. In
  \<open>edited_span_state\<close> the text at the anchor is no longer the suggestion.
\<close>

definition typing_state :: editor where
  "typing_state = \<lparr> buffer = [(CHR ''a'', False), (CHR ''b'', False)],
     insert_mark = 2, ghost_text_start_pos = None, current_completion = [],
     last_completion_request = 0, ai_engine_present = True, ai_enabled = True,
     status = [] \<rparr>"

definition home_key_state :: editor where
  "home_key_state = \<lparr> buffer = [(CHR ''x'', False), (CHR ''y'', True), (CHR ''z'', True)],
     insert_mark = 0, ghost_text_start_pos = Some (1, 1), current_completion = ''yz'',
     last_completion_request = 0, ai_engine_present = True, ai_enabled = True,
     status = ''Completion ready - Press Tab to accept, or keep typing to dismiss'' \<rparr>"

definition edited_span_state :: editor where
  "edited_span_state = \<lparr> buffer = [(CHR ''x'', False), (CHR ''a'', False), (CHR ''b'', False)],
     insert_mark = 1, ghost_text_start_pos = Some (1, 1), current_completion = ''yz'',
     last_completion_request = 0, ai_engine_present = True, ai_enabled = True,
     status = [] \<rparr>"

section \<open>Properties of the overlap resolver\<close>

lemma startswith_lower:
  "startswith (map f s) (map f w) = starts_with_ci (map f) s w"
  by (simp add: startswith_def starts_with_ci_def take_map)

lemma find_map_Suc:
  "List.find P (map Suc xs) = map_option Suc (List.find (\<lambda>i. P (Suc i)) xs)"
  by (induction xs) auto

lemma upt_0_Suc: "[0 ..< Suc n] = 0 # map Suc [0 ..< n]"
  by (simp only: map_Suc_upt upt_conv_Cons [OF zero_less_Suc])

lemma str_find_first:
  "str_find s p = List.find (\<lambda>i. startswith (drop i s) p) [0 ..< Suc (length s)]"
proof (induction s)
  case Nil
  show ?case by (auto simp: startswith_def)
next
  case (Cons c s)
  have "List.find (\<lambda>i. startswith (drop i (c # s)) p) [0 ..< Suc (length (c # s))]
      = List.find (\<lambda>i. startswith (drop i (c # s)) p) (0 # map Suc [0 ..< Suc (length s)])"
    unfolding length_Cons by (subst upt_0_Suc) (rule refl)
  also have "\<dots> = (if startswith (c # s) p then Some 0
      else map_option Suc (List.find (\<lambda>i. startswith (drop i s) p) [0 ..< Suc (length s)]))"
    by (simp add: find_map_Suc del: upt_Suc)
  also have "\<dots> = str_find (c # s) p"
    using Cons by (simp del: upt_Suc)
  finally show ?case by (rule sym)
qed

lemma first_occurrence_ci_find:
  "first_occurrence_ci (map f) w s = str_find (map f s) (map f w)"
proof -
  have "\<And>i. startswith (drop i (map f s)) (map f w) = starts_with_ci (map f) (drop i s) w"
    using startswith_lower [of f "drop _ s" w] by (simp add: drop_map)
  then show ?thesis
    by (simp add: first_occurrence_ci_def str_find_first)
qed

lemma str_find_startswith: "startswith s p \<Longrightarrow> str_find s p = Some 0"
  by (cases s) (auto simp: startswith_def)

lemma str_find_infix: "str_find (a @ p @ b) p \<noteq> None"
proof (induction a)
  case Nil
  have "startswith (p @ b) p" by (simp add: startswith_def)
  then show ?case by (simp add: str_find_startswith)
next
  case (Cons x a)
  then show ?case by simp
qed

lemma split_acc_infix:
  "w \<in> set (split_acc sp cur s) \<Longrightarrow> \<exists>a b. cur @ s = a @ w @ b"
proof (induction sp cur s rule: split_acc.induct)
  case (1 sp cur)
  then show ?case by (auto split: if_splits intro: exI [of _ "[]"])
next
  case (2 sp cur c s)
  show ?case
  proof (cases "sp c")
    case False
    with 2 show ?thesis by auto
  next
    case True
    show ?thesis
    proof (cases "w = cur")
      case True
      have "cur @ c # s = [] @ cur @ (c # s)" by simp
      then show ?thesis using True by blast
    next
      case False
      with 2 \<open>sp c\<close> have "w \<in> set (split_acc sp [] s)" by (auto split: if_splits)
      with 2 \<open>sp c\<close> obtain a b where "[] @ s = a @ w @ b" by (auto split: if_splits)
      then have "cur @ c # s = (cur @ c # a) @ w @ b" by simp
      then show ?thesis by blast
    qed
  qed
qed

lemma token_no_match:
  assumes nf: "str_find (map f c) (map f cw) = None"
    and w: "w \<in> set (str_split sp c)"
  shows "\<not> starts_with_ci (map f) w cw"
proof
  assume sw: "starts_with_ci (map f) w cw"
  from w obtain a b where c: "c = a @ w @ b"
    using split_acc_infix [of w sp "[]" c] by (auto simp: str_split_def)
  from sw have "map f w = map f cw @ map f (drop (length cw) w)"
    by (metis append_take_drop_id map_append starts_with_ci_def)
  then have "map f c = map f a @ map f cw @ (map f (drop (length cw) w) @ map f b)"
    using c by simp
  then show False using nf str_find_infix by metis
qed

lemma strategy3_none:
  "\<forall>w \<in> set ws. \<not> starts_with_ci (map f) w cw \<Longrightarrow>
     strategy3 (map f) blank cws cw ws = Inr None"
  by (induction ws) (auto simp: startswith_lower)

lemma token_prefix_match_none:
  "\<forall>w \<in> set ws. \<not> starts_with_ci (map f) w cw \<Longrightarrow>
     token_prefix_match (map f) blank cw ws = None"
  by (induction ws) auto

text \<open>
  Where lower-casing works character by character, one character for each, the function
  returns, and never raises, what the resolution order prescribes, for every current word
  and completion and whatever the characters and the whitespace are. The token-prefix rule
  is then never the one that fires (\<open>token_no_match\<close>): a token that starts with the
  current word makes the current word a substring of the completion.
\<close>

lemma trim_completion_overlap_charwise:
  "trim_completion_overlap (map f) sp blank current_word completion
     = Inr (resolve (map f) sp blank current_word completion)"
proof (cases "str_find (map f completion) (map f current_word)")
  case (Some pos)
  then show ?thesis
    by (simp add: trim_completion_overlap_def resolve_def startswith_lower
        first_occurrence_ci_find)
next
  case None
  then have "\<forall>w \<in> set (str_split sp completion). \<not> starts_with_ci (map f) w current_word"
    using token_no_match by blast
  then have "strategy3 (map f) blank (str_split sp completion) current_word
        (str_split sp completion) = Inr None"
    and "token_prefix_match (map f) blank current_word (str_split sp completion) = None"
    by (simp_all add: strategy3_none token_prefix_match_none)
  then show ?thesis using None
    by (simp add: trim_completion_overlap_def resolve_def startswith_lower
        first_occurrence_ci_find)
qed

lemma trim_completion_overlap_example:
  "trim_completion_overlap str_lower isspace space ''val'' ''the value is here''
     = Inr ''ue is here''"
  by code_simp

text \<open>
  C1. The resolver is to return, for a current word that occurs inside the completion,
  everything after the end of the first occurrence, matching without regard to case and
  cutting the output from the completion as given. With the current word \<open>abc\<close> and the
  completion made of U+0130 followed by \<open>abcdef\<close> the function returns \<open>ef\<close>: it finds the
  word in the lower-cased completion, where U+0130 has become two code points, at position
  2, and cuts the completion as given at that position plus the length of the word. The
  word occurs in the completion at position 1, and the text after the end of that
  occurrence is \<open>def\<close>, which is what the resolution order gives.
\<close>

theorem trim_completion_overlap_dotted_capital_i:
  "trim_completion_overlap lower_dotted unicode_isspace 32 [97, 98, 99]
       [304, 97, 98, 99, 100, 101, 102] = Inr [101, 102]
   \<and> str_find (lower_dotted [304, 97, 98, 99, 100, 101, 102]) (lower_dotted [97, 98, 99])
       = Some 2
   \<and> first_occurrence_ci lower_dotted [97, 98, 99] [304, 97, 98, 99, 100, 101, 102]
       = Some 1
   \<and> resolve lower_dotted unicode_isspace 32 [97, 98, 99]
       [304, 97, 98, 99, 100, 101, 102] = [100, 101, 102]"
  by code_simp

section \<open>Properties of the completion cache\<close>

lemma dict_set_fresh: "map_of d k = None \<Longrightarrow> dict_set k v d = d @ [(k, v)]"
  by (induction d) (auto split: if_splits)

lemma dict_del_head:
  "distinct (map fst ((k, v) # d)) \<Longrightarrow> dict_del k ((k, v) # d) = d"
proof -
  assume "distinct (map fst ((k, v) # d))"
  then have "\<forall>kv \<in> set d. fst kv \<noteq> k" by auto
  then have "filter (\<lambda>kv. fst kv \<noteq> k) d = d" by (simp add: filter_id_conv)
  then show ?thesis by (simp add: dict_del_def)
qed

lemma cache_store_fresh:
  assumes "map_of c k = None" and "distinct (map fst c)" and "length c \<le> 50"
  shows "cache_store k v c = drop (Suc (length c) - 50) (c @ [(k, v)])"
proof (cases "length c < 50")
  case True
  then show ?thesis using assms by (simp add: cache_store_def dict_set_fresh)
next
  case False
  with assms have len: "length c = 50" by simp
  then obtain kv c' where c: "c = kv # c'" by (cases c) auto
  obtain k0 v0 where kv: "kv = (k0, v0)" by (cases kv)
  have ds: "dict_set k v c = (k0, v0) # c' @ [(k, v)]"
    using dict_set_fresh [OF assms(1), of v] c kv by simp
  have "k \<notin> fst ` set c" using assms(1) by (simp add: map_of_eq_None_iff)
  then have "distinct (map fst (c @ [(k, v)]))" using assms(2) by auto
  then have "distinct (map fst ((k0, v0) # c' @ [(k, v)]))" using c kv by simp
  then have dd: "dict_del k0 ((k0, v0) # c' @ [(k, v)]) = c' @ [(k, v)]"
    by (rule dict_del_head)
  have l51: "length ((k0, v0) # c' @ [(k, v)]) > 50" using len c by simp
  have "cache_store k v c = dict_del k0 ((k0, v0) # c' @ [(k, v)])"
    unfolding cache_store_def ds Let_def using l51 by simp
  also have "\<dots> = drop (Suc (length c) - 50) (c @ [(k, v)])"
    using dd len c kv by simp
  finally show ?thesis .
qed

lemma get_completion_cache:
  "completion_cache (snd (get_completion cfg now cb cl ca p e)) =
     (case fst (get_completion cfg now cb cl ca p e) of
        Completed v \<Rightarrow> cache_store (create_cache_key cb ca cl) v (completion_cache e)
      | _ \<Rightarrow> completion_cache e)"
  by (auto simp: get_completion_def should_debounce_def Let_def
      split: option.splits provider_outcome.splits)

lemma get_completion_completed_miss:
  "fst (get_completion cfg now cb cl ca p e) = Completed v \<Longrightarrow>
     map_of (completion_cache e) (create_cache_key cb ca cl) = None"
  by (auto simp: get_completion_def should_debounce_def Let_def
      split: option.splits provider_outcome.splits if_splits)

lemma cache_store_ok:
  assumes "map_of c k = None" and "cache_ok c"
  shows "cache_ok (cache_store k v c)"
proof -
  have eq: "cache_store k v c = drop (Suc (length c) - 50) (c @ [(k, v)])"
    using assms by (simp add: cache_store_fresh cache_ok_def)
  have "k \<notin> fst ` set c" using assms(1) by (simp add: map_of_eq_None_iff)
  then have "distinct (map fst (c @ [(k, v)]))" using assms(2) by (auto simp: cache_ok_def)
  then have d: "distinct (map fst (drop (Suc (length c) - 50) (c @ [(k, v)])))"
    by (metis distinct_drop drop_map)
  have l: "length (drop (Suc (length c) - 50) (c @ [(k, v)])) \<le> 50"
    by (simp del: drop_append)
  show ?thesis unfolding eq cache_ok_def using d l by blast
qed

lemma serve_cache:
  assumes "cache_ok (completion_cache e)"
  shows "completion_cache (snd (serve cfg r e)) =
           (case fst (serve cfg r e) of
              Completed v \<Rightarrow> drop (Suc (length (completion_cache e)) - 50)
                               (completion_cache e @ [(request_key r, v)])
            | _ \<Rightarrow> completion_cache e)
         \<and> cache_ok (completion_cache (snd (serve cfg r e)))"
proof -
  obtain now cb cl ca p where r: "r = (now, cb, cl, ca, p)" by (cases r)
  have gc: "completion_cache (snd (serve cfg r e)) =
     (case fst (serve cfg r e) of
        Completed v \<Rightarrow> cache_store (request_key r) v (completion_cache e)
      | _ \<Rightarrow> completion_cache e)"
    unfolding r serve.simps request_key.simps by (rule get_completion_cache)
  show ?thesis
  proof (cases "fst (serve cfg r e)")
    case (Completed v)
    then have miss: "map_of (completion_cache e) (request_key r) = None"
      using r get_completion_completed_miss [of cfg now cb cl ca p e v] by simp
    have "completion_cache (snd (serve cfg r e)) =
        cache_store (request_key r) v (completion_cache e)"
      using gc Completed by simp
    moreover have "cache_store (request_key r) v (completion_cache e) =
        drop (Suc (length (completion_cache e)) - 50)
          (completion_cache e @ [(request_key r, v)])"
      using miss assms by (simp add: cache_store_fresh cache_ok_def)
    moreover have "cache_ok (cache_store (request_key r) v (completion_cache e))"
      using miss assms by (rule cache_store_ok)
    ultimately show ?thesis using Completed by simp
  qed (use gc assms in simp_all)
qed

lemma run_requests_cache:
  "cache_ok (completion_cache e) \<Longrightarrow>
   completion_cache (run_requests cfg e rs) =
     drop (length (completion_cache e @ stored_entries cfg e rs) - 50)
          (completion_cache e @ stored_entries cfg e rs)"
proof (induction rs arbitrary: e)
  case Nil
  then show ?case by (simp add: cache_ok_def)
next
  case (Cons r rs)
  obtain out e' where s: "serve cfg r e = (out, e')" by (cases "serve cfg r e")
  have sc: "completion_cache e' =
           (case out of
              Completed v \<Rightarrow> drop (Suc (length (completion_cache e)) - 50)
                               (completion_cache e @ [(request_key r, v)])
            | _ \<Rightarrow> completion_cache e)
          \<and> cache_ok (completion_cache e')"
    using serve_cache [OF Cons.prems, of cfg r] unfolding s fst_conv snd_conv .
  note c' = sc [THEN conjunct1] and ok' = sc [THEN conjunct2]
  note IH = Cons.IH [OF ok']
  have len: "length (completion_cache e) \<le> 50" using Cons.prems by (simp add: cache_ok_def)
  show ?case
  proof (cases out)
    case (Completed v)
    let ?c = "completion_cache e" and ?ins = "stored_entries cfg e' rs"
    have c'': "completion_cache e' = drop (Suc (length ?c) - 50) (?c @ [(request_key r, v)])"
      using c' Completed by simp
    have "drop (length (completion_cache e' @ ?ins) - 50) (completion_cache e' @ ?ins)
        = drop (length (?c @ (request_key r, v) # ?ins) - 50) (?c @ (request_key r, v) # ?ins)"
    proof (cases "length ?c < 50")
      case True
      then show ?thesis using c'' by simp
    next
      case False
      with len have l50: "length ?c = 50" by simp
      then have "completion_cache e' = drop 1 (?c @ [(request_key r, v)])" using c'' by simp
      then have "completion_cache e' @ ?ins = drop 1 (?c @ (request_key r, v) # ?ins)"
        using l50 by simp
      then show ?thesis using l50 by (simp add: drop_Suc [symmetric] del: drop_append)
    qed
    then show ?thesis using IH s Completed by simp
  qed (use IH s c' in simp_all)
qed

lemmas engine_eval = get_completion_def should_debounce_def config_get_def new_engine_def
  create_cache_key_def str_remove_def cache_store_def str_strip_def isspace_def newline_def
  space_def Let_def dict_del_def

lemma run_requests_new:
  "completion_cache (run_requests cfg new_engine rs) =
     drop (length (stored_entries cfg new_engine rs) - 50) (stored_entries cfg new_engine rs)"
  using run_requests_cache [of new_engine cfg rs]
  by (simp add: new_engine_def cache_ok_def)

lemma get_completion_hit:
  "fst (get_completion cfg now cb cl ca p e) = CacheHit v \<Longrightarrow>
     completion_cache (snd (get_completion cfg now cb cl ca p e)) = completion_cache e"
  by (simp add: get_completion_cache)

lemma get_completion_store:
  assumes adm: "\<not> now - last_request_time e < delay_ms cfg"
    and miss: "map_of (completion_cache e) (create_cache_key cb ca cl) = None"
    and client: "client_ready e"
    and content: "content \<noteq> []"
    and ok: "cache_ok (completion_cache e)"
  shows "get_completion cfg now cb cl ca (ProviderContent content) e =
     (Completed (str_strip content),
      e\<lparr>last_request_time := now,
         last_request_prompt := Some (build_completion_prompt cb cl ca),
         last_response := Some (str_strip content),
         completion_cache :=
           (if length (completion_cache e) = 50 then tl (completion_cache e)
            else completion_cache e) @ [(create_cache_key cb ca cl, str_strip content)]\<rparr>)"
proof -
  let ?c = "completion_cache e" and ?k = "create_cache_key cb ca cl" and ?v = "str_strip content"
  have "cache_store ?k ?v ?c = drop (Suc (length ?c) - 50) (?c @ [(?k, ?v)])"
    using miss ok by (simp add: cache_store_fresh cache_ok_def)
  also have "\<dots> = (if length ?c = 50 then tl ?c else ?c) @ [(?k, ?v)]"
  proof (cases "length ?c = 50")
    case True
    then have "?c \<noteq> []" by auto
    then show ?thesis using True by (cases ?c) simp_all
  next
    case False
    then have "length ?c < 50" using ok by (simp add: cache_ok_def)
    then show ?thesis by simp
  qed
  finally have cs: "cache_store ?k ?v ?c = (if length ?c = 50 then tl ?c else ?c) @ [(?k, ?v)]" .
  show ?thesis
    using adm miss client content
    by (simp add: get_completion_def should_debounce_def delay_ms_def Let_def cs)
qed

lemma get_completion_lookup:
  assumes adm: "\<not> now - last_request_time e < delay_ms cfg"
    and hit: "map_of (completion_cache e) (create_cache_key cb ca cl) = Some v"
  shows "get_completion cfg now cb cl ca p e =
     (CacheHit v, e\<lparr>last_request_time := now, last_request_prompt := None,
                    last_response := None\<rparr>)"
  using assms by (simp add: get_completion_def should_debounce_def delay_ms_def Let_def)

lemma fifty_facts:
  "cache_ok fifty_entries" "length fifty_entries = 50"
  "map_of fifty_entries ''k'' = Some ''v''"
  "map_of fifty_entries (replicate 51 CHR ''k'') = None"
  "create_cache_key [] [] ''k'' = ''k''"
  "create_cache_key [] [] (replicate 51 CHR ''k'') = replicate 51 CHR ''k''"
  "hd fifty_entries = (''k'', ''v'')"
  "map_of (tl fifty_entries @ [(replicate 51 CHR ''k'', ''w'')]) ''k'' = None"
  "str_strip ''w'' = ''w''"
  by code_simp+

text \<open>
  C2. The cache is bounded at 50 entries and evicts strictly in insertion order. A request
  that passes the rate limiter, misses the cache and gets a text from the provider is
  stored: its entry is appended at the end of the cache, and when the cache already holds
  50 entries the first one, the earliest inserted, is removed. A request that passes the
  rate limiter and finds its key returns the cached text and leaves the cache, order
  included, as it is: lookups do not refresh an entry, and the next entry to go is the
  oldest inserted one (FIFO, not LRU). Hence, whatever requests the engine serves from its
  initial state, the cache holds exactly the last \<open>min n 50\<close> of the \<open>n\<close> entries stored so
  far, in the order of their insertion.
\<close>

theorem cache_fifo:
  "completion_cache (run_requests cfg new_engine rs) =
     drop (length (stored_entries cfg new_engine rs) - 50) (stored_entries cfg new_engine rs)
   \<and> length (completion_cache (run_requests cfg new_engine rs)) =
     min (length (stored_entries cfg new_engine rs)) 50
   \<and> (\<not> now - last_request_time e < delay_ms cfg
        \<and> map_of (completion_cache e) (create_cache_key cb ca cl) = None
        \<and> client_ready e \<and> content \<noteq> [] \<and> cache_ok (completion_cache e) \<longrightarrow>
        get_completion cfg now cb cl ca (ProviderContent content) e =
          (Completed (str_strip content),
           e\<lparr>last_request_time := now,
              last_request_prompt := Some (build_completion_prompt cb cl ca),
              last_response := Some (str_strip content),
              completion_cache :=
                (if length (completion_cache e) = 50 then tl (completion_cache e)
                 else completion_cache e) @ [(create_cache_key cb ca cl, str_strip content)]\<rparr>))
   \<and> (\<not> now - last_request_time e < delay_ms cfg
        \<and> map_of (completion_cache e) (create_cache_key cb ca cl) = Some v \<longrightarrow>
        get_completion cfg now cb cl ca p e =
          (CacheHit v, e\<lparr>last_request_time := now, last_request_prompt := None,
                         last_response := None\<rparr>))
   \<and> (fst (get_completion cfg now cb cl ca p e) = CacheHit v \<longrightarrow>
        completion_cache (snd (get_completion cfg now cb cl ca p e)) = completion_cache e)"
  using run_requests_new [of cfg rs] get_completion_hit [of cfg now cb cl ca p e v]
    get_completion_store [of now e cfg cb ca cl content]
    get_completion_lookup [of now e cfg cb ca cl v p]
  by (simp del: drop_append)

text \<open>
  In the full cache the oldest entry is looked up, with a hit, and is still the one that
  the next store removes.
\<close>

theorem cache_fifo_witness:
  "cache_ok (completion_cache full_engine)
   \<and> length (completion_cache full_engine) = 50
   \<and> hd (completion_cache full_engine) = (''k'', ''v'')
   \<and> get_completion Map.empty 2000 [] ''k'' [] ProviderNoContent full_engine =
       (CacheHit ''v'', full_engine\<lparr>last_request_time := 2000\<rparr>)
   \<and> fst (get_completion Map.empty 3000 [] (replicate 51 CHR ''k'') [] (ProviderContent ''w'')
            (full_engine\<lparr>last_request_time := 2000\<rparr>)) = Completed ''w''
   \<and> completion_cache
        (snd (get_completion Map.empty 3000 [] (replicate 51 CHR ''k'') [] (ProviderContent ''w'')
               (full_engine\<lparr>last_request_time := 2000\<rparr>)))
       = tl (completion_cache full_engine) @ [(replicate 51 CHR ''k'', ''w'')]
   \<and> map_of (completion_cache
        (snd (get_completion Map.empty 3000 [] (replicate 51 CHR ''k'') [] (ProviderContent ''w'')
               (full_engine\<lparr>last_request_time := 2000\<rparr>)))) ''k'' = None"
proof -
  let ?e = "full_engine" and ?e1 = "full_engine\<lparr>last_request_time := 2000\<rparr>"
  have c: "completion_cache ?e = fifty_entries" "completion_cache ?e1 = fifty_entries"
    "client_ready ?e1" "last_request_time ?e = 1000" "last_request_time ?e1 = 2000"
    "last_request_prompt ?e = None" "last_response ?e = None"
    by (simp_all add: full_engine_def new_engine_def)
  have d: "delay_ms Map.empty = 500" by (simp add: delay_ms_def config_get_def)
  have hit: "\<not> 2000 - last_request_time ?e < delay_ms Map.empty
      \<and> map_of (completion_cache ?e) (create_cache_key [] [] ''k'') = Some ''v''"
    by (simp add: c d fifty_facts)
  have store: "\<not> 3000 - last_request_time ?e1 < delay_ms Map.empty
      \<and> map_of (completion_cache ?e1) (create_cache_key [] [] (replicate 51 CHR ''k'')) = None
      \<and> client_ready ?e1 \<and> ''w'' \<noteq> [] \<and> cache_ok (completion_cache ?e1)"
    by (simp add: c d fifty_facts)
  have g1: "get_completion Map.empty 2000 [] ''k'' [] ProviderNoContent ?e =
       (CacheHit ''v'', ?e\<lparr>last_request_time := 2000, last_request_prompt := None,
                           last_response := None\<rparr>)"
    using hit cache_fifo [of Map.empty "[]" 2000 ?e "[]" "[]" "''k''" "''w''" "''v''" ProviderNoContent]
    by blast
  have same: "?e\<lparr>last_request_time := 2000, last_request_prompt := None, last_response := None\<rparr>
      = ?e1"
    by (simp add: full_engine_def new_engine_def)
  have g2: "get_completion Map.empty 3000 [] (replicate 51 CHR ''k'') [] (ProviderContent ''w'') ?e1 =
       (Completed (str_strip ''w''),
        ?e1\<lparr>last_request_time := 3000,
           last_request_prompt := Some (build_completion_prompt [] (replicate 51 CHR ''k'') []),
           last_response := Some (str_strip ''w''),
           completion_cache :=
             (if length (completion_cache ?e1) = 50 then tl (completion_cache ?e1)
              else completion_cache ?e1)
             @ [(create_cache_key [] [] (replicate 51 CHR ''k''), str_strip ''w'')]\<rparr>)"
    using store
      cache_fifo [of Map.empty "[]" 3000 ?e1 "[]" "[]" "replicate 51 CHR ''k''" "''w''" "''v''"
        ProviderNoContent]
    by blast
  have g2c: "completion_cache
        (snd (get_completion Map.empty 3000 [] (replicate 51 CHR ''k'') [] (ProviderContent ''w'') ?e1))
       = tl fifty_entries @ [(replicate 51 CHR ''k'', ''w'')]"
    unfolding g2 by (simp add: c fifty_facts)
  have g2o: "fst (get_completion Map.empty 3000 [] (replicate 51 CHR ''k'') []
       (ProviderContent ''w'') ?e1) = Completed ''w''"
    unfolding g2 by (simp add: fifty_facts)
  show ?thesis
    unfolding g2c g2o g1 same c
    using fifty_facts(1,2,7,8) by simp
qed

section \<open>Properties of the rate limiter\<close>

lemma should_debounce_snd:
  "snd (should_debounce cfg t e) =
     (if fst (should_debounce cfg t e) then e else e\<lparr>last_request_time := t\<rparr>)"
  by (simp add: should_debounce_def Let_def)

lemma should_debounce_second:
  assumes "t2 - t1 < delay_ms cfg" and "\<not> fst (should_debounce cfg t1 e)"
  shows "should_debounce cfg t2 (snd (should_debounce cfg t1 e)) = (True, e\<lparr>last_request_time := t1\<rparr>)"
  using assms by (simp add: should_debounce_def delay_ms_def Let_def split: if_splits)

lemma get_completion_debounced:
  "fst (get_completion cfg t cb cl ca p e) = Debounced \<longleftrightarrow>
     fst (should_debounce cfg t (e\<lparr>last_request_prompt := None, last_response := None\<rparr>))"
  by (auto simp: get_completion_def should_debounce_def Let_def
      split: option.splits provider_outcome.splits)

lemma get_completion_time:
  "last_request_time (snd (get_completion cfg t cb cl ca p e)) =
     (if fst (get_completion cfg t cb cl ca p e) = Debounced then last_request_time e else t)"
  by (auto simp: get_completion_def should_debounce_def Let_def
      split: option.splits provider_outcome.splits)

lemma should_debounce_iff:
  "fst (should_debounce cfg t e) = (t - last_request_time e < delay_ms cfg)"
  by (simp add: should_debounce_def delay_ms_def Let_def)

lemma get_completion_debounced_iff:
  "(fst (get_completion cfg t cb cl ca p e) = Debounced) =
     (t - last_request_time e < delay_ms cfg)"
  by (simp add: get_completion_debounced should_debounce_iff)

text \<open>
  C3. The check suppresses a request exactly when the current time is less than
  \<open>completion_delay_ms\<close> (default 500) after the stored time of the last admitted request.
  A check that suppresses leaves the engine as it is, and a check that admits sets the
  stored time to the current time. If a request is admitted and the next one comes within
  the delay of it, the second is suppressed by the check, before the cache is read and
  before the provider is called, and the stored time stays that of the first. If the first
  of two requests within the delay of each other is suppressed and the last admitted
  request is at least the delay old at the second, the second is admitted. So of any two
  consecutive requests within the delay of each other at most one passes the check, and at
  most one provider call occurs for the pair.
\<close>

theorem debounce_pair:
  assumes "t2 - t1 < delay_ms cfg"
  shows "(fst (get_completion cfg t1 cb1 cl1 ca1 p1 e) = Debounced
          \<or> fst (get_completion cfg t2 cb2 cl2 ca2 p2
                 (snd (get_completion cfg t1 cb1 cl1 ca1 p1 e))) = Debounced)
     \<and> (fst (get_completion cfg t1 cb1 cl1 ca1 p1 e) \<noteq> Debounced \<longrightarrow>
          get_completion cfg t2 cb2 cl2 ca2 p2 (snd (get_completion cfg t1 cb1 cl1 ca1 p1 e))
            = (Debounced, (snd (get_completion cfg t1 cb1 cl1 ca1 p1 e))
                 \<lparr>last_request_prompt := None, last_response := None\<rparr>)
          \<and> last_request_time (snd (get_completion cfg t1 cb1 cl1 ca1 p1 e)) = t1)
     \<and> (\<not> fst (should_debounce cfg t1 e) \<longrightarrow>
          should_debounce cfg t2 (snd (should_debounce cfg t1 e))
            = (True, e\<lparr>last_request_time := t1\<rparr>))
     \<and> snd (should_debounce cfg t e) =
          (if fst (should_debounce cfg t e) then e else e\<lparr>last_request_time := t\<rparr>)
     \<and> fst (should_debounce cfg t e) = (t - last_request_time e < delay_ms cfg)
     \<and> (fst (get_completion cfg t cb cl ca p e) = Debounced) =
          (t - last_request_time e < delay_ms cfg)
     \<and> (fst (get_completion cfg t1 cb1 cl1 ca1 p1 e) = Debounced
          \<and> \<not> t2 - last_request_time e < delay_ms cfg \<longrightarrow>
          fst (get_completion cfg t2 cb2 cl2 ca2 p2
                 (snd (get_completion cfg t1 cb1 cl1 ca1 p1 e))) \<noteq> Debounced
          \<and> last_request_time (snd (get_completion cfg t2 cb2 cl2 ca2 p2
                 (snd (get_completion cfg t1 cb1 cl1 ca1 p1 e)))) = t2)"
proof -
  let ?g1 = "get_completion cfg t1 cb1 cl1 ca1 p1 e"
  let ?g2 = "get_completion cfg t2 cb2 cl2 ca2 p2 (snd ?g1)"
  have adm: "fst ?g1 \<noteq> Debounced \<Longrightarrow>
      ?g2 = (Debounced, (snd ?g1)\<lparr>last_request_prompt := None, last_response := None\<rparr>)
      \<and> last_request_time (snd ?g1) = t1"
  proof -
    assume a: "fst ?g1 \<noteq> Debounced"
    then have lt: "last_request_time (snd ?g1) = t1" by (simp add: get_completion_time)
    then have "fst (should_debounce cfg t2
        ((snd ?g1)\<lparr>last_request_prompt := None, last_response := None\<rparr>))"
      using assms by (simp add: should_debounce_def delay_ms_def Let_def)
    then have "?g2 = (Debounced, (snd ?g1)\<lparr>last_request_prompt := None, last_response := None\<rparr>)"
      by (simp add: get_completion_def should_debounce_def Let_def split: if_splits)
    with lt show ?thesis by simp
  qed
  then have one: "fst ?g1 = Debounced \<or> fst ?g2 = Debounced"
    by (cases "fst ?g1 = Debounced") simp_all
  have sup: "fst ?g1 = Debounced \<Longrightarrow> \<not> t2 - last_request_time e < delay_ms cfg \<Longrightarrow>
      fst ?g2 \<noteq> Debounced \<and> last_request_time (snd ?g2) = t2"
  proof -
    assume d: "fst ?g1 = Debounced" and old: "\<not> t2 - last_request_time e < delay_ms cfg"
    from d have "last_request_time (snd ?g1) = last_request_time e"
      by (simp add: get_completion_time)
    with old have "fst ?g2 \<noteq> Debounced"
      by (simp add: get_completion_debounced_iff)
    then show ?thesis by (simp add: get_completion_time)
  qed
  show ?thesis
    using one adm sup should_debounce_second [OF assms] should_debounce_snd
      should_debounce_iff get_completion_debounced_iff
    by blast
qed

theorem debounce_pair_witness:
  "(1200::real) - 1000 < delay_ms Map.empty
   \<and> fst (get_completion Map.empty 1000 ''a'' ''b'' ''c'' (ProviderContent ''x'') new_engine)
       = Completed ''x''
   \<and> fst (get_completion Map.empty 1200 ''d'' ''e'' ''f'' (ProviderContent ''y'')
        (snd (get_completion Map.empty 1000 ''a'' ''b'' ''c'' (ProviderContent ''x'') new_engine)))
       = Debounced
   \<and> \<not> fst (should_debounce Map.empty 1000 new_engine)
   \<and> should_debounce Map.empty 1200 (snd (should_debounce Map.empty 1000 new_engine))
       = (True, new_engine\<lparr>last_request_time := 1000\<rparr>)
   \<and> (1600::real) - 1400 < delay_ms Map.empty
   \<and> fst (get_completion Map.empty 1400 ''d'' ''e'' ''f'' (ProviderContent ''y'')
        (snd (get_completion Map.empty 1000 ''a'' ''b'' ''c'' (ProviderContent ''x'') new_engine)))
       = Debounced
   \<and> \<not> 1600 - last_request_time
        (snd (get_completion Map.empty 1000 ''a'' ''b'' ''c'' (ProviderContent ''x'') new_engine))
        < delay_ms Map.empty
   \<and> fst (get_completion Map.empty 1600 ''g'' ''h'' ''i'' (ProviderContent ''z'')
        (snd (get_completion Map.empty 1400 ''d'' ''e'' ''f'' (ProviderContent ''y'')
          (snd (get_completion Map.empty 1000 ''a'' ''b'' ''c'' (ProviderContent ''x'') new_engine)))))
       \<noteq> Debounced"
proof -
  let ?E = "snd (get_completion Map.empty 1000 ''a'' ''b'' ''c'' (ProviderContent ''x'') new_engine)"
  have h: "(1200::real) - 1000 < delay_ms Map.empty" by (simp add: delay_ms_def config_get_def)
  have g1: "fst (get_completion Map.empty 1000 ''a'' ''b'' ''c'' (ProviderContent ''x'') new_engine)
       = Completed ''x''" by (simp add: engine_eval)
  have s1: "\<not> fst (should_debounce Map.empty 1000 new_engine)" by (simp add: engine_eval)
  note dp = debounce_pair [OF h, of "''a''" "''b''" "''c''" "ProviderContent ''x''" new_engine
        "''d''" "''e''" "''f''" "ProviderContent ''y''"]
  from g1 have ne:
    "fst (get_completion Map.empty 1000 ''a'' ''b'' ''c'' (ProviderContent ''x'') new_engine)
       \<noteq> Debounced" by simp
  from dp ne have "get_completion Map.empty 1200 ''d'' ''e'' ''f'' (ProviderContent ''y'') ?E
     = (Debounced, ?E\<lparr>last_request_prompt := None, last_response := None\<rparr>)" by blast
  then have g2: "fst (get_completion Map.empty 1200 ''d'' ''e'' ''f'' (ProviderContent ''y'') ?E)
       = Debounced" by (simp only: fst_conv)
  from dp s1 have s2:
    "should_debounce Map.empty 1200 (snd (should_debounce Map.empty 1000 new_engine))
       = (True, new_engine\<lparr>last_request_time := 1000\<rparr>)" by blast
  have h': "(1600::real) - 1400 < delay_ms Map.empty" by (simp add: delay_ms_def config_get_def)
  have lt: "last_request_time ?E = 1000" by (simp add: engine_eval)
  have g3: "fst (get_completion Map.empty 1400 ''d'' ''e'' ''f'' (ProviderContent ''y'') ?E)
       = Debounced" by (simp add: engine_eval)
  have old: "\<not> 1600 - last_request_time ?E < delay_ms Map.empty"
    by (simp add: lt delay_ms_def config_get_def)
  note dp' = debounce_pair [OF h', of "''d''" "''e''" "''f''" "ProviderContent ''y''" ?E
        "''g''" "''h''" "''i''" "ProviderContent ''z''"]
  from dp' g3 old have g4:
    "fst (get_completion Map.empty 1600 ''g'' ''h'' ''i'' (ProviderContent ''z'')
        (snd (get_completion Map.empty 1400 ''d'' ''e'' ''f'' (ProviderContent ''y'') ?E)))
       \<noteq> Debounced" by blast
  show ?thesis using h g1 g2 s1 s2 h' g3 old g4 by blast
qed

text \<open>
  The second of two requests within the delay of each other is not always the suppressed
  one. The window is measured from the last admitted request: after requests at 1000
  (admitted) and 1400 (suppressed), the request at 1600 is admitted and reaches the
  provider, although it comes 200 ms after the one before it.
\<close>

theorem debounce_pair_counterexample:
  "(1600::real) - 1400 < delay_ms Map.empty
   \<and> fst (get_completion Map.empty 1400 ''d'' ''e'' ''f'' (ProviderContent ''y'')
        (snd (get_completion Map.empty 1000 ''a'' ''b'' ''c'' (ProviderContent ''x'') new_engine)))
       = Debounced
   \<and> fst (get_completion Map.empty 1600 ''g'' ''h'' ''i'' (ProviderContent ''z'')
        (snd (get_completion Map.empty 1400 ''d'' ''e'' ''f'' (ProviderContent ''y'')
          (snd (get_completion Map.empty 1000 ''a'' ''b'' ''c'' (ProviderContent ''x'') new_engine)))))
       = Completed ''z''"
  by (simp add: engine_eval delay_ms_def)

section \<open>Properties of the cache key\<close>

lemma create_cache_key_norm:
  "create_cache_key cb ca cl =
     strip_space_newline (last_chars 100 cb) @ strip_space_newline cl
       @ strip_space_newline (take 50 ca)"
proof -
  have "str_remove newline (str_remove space s) = strip_space_newline s" for s
    by (induction s) (auto simp: str_remove_def strip_space_newline_def newline_def space_def)
  then show ?thesis
    by (simp add: create_cache_key_def last_chars_def Let_def strip_space_newline_def)
qed

text \<open>
  C7. The cache key is a function of three slices of the context: the last
  100 characters of the text before, the current line, and the first 50 characters of the
  text after; it is their concatenation with the space and line-feed characters removed.
  Hence two contexts whose slices agree once spaces and line feeds are removed have the
  same key, however they differ beyond the truncation bounds.
\<close>

theorem cache_key_from_slices:
  "create_cache_key cb ca cl =
     strip_space_newline (last_chars 100 cb) @ strip_space_newline cl
       @ strip_space_newline (take 50 ca)
   \<and> (strip_space_newline (last_chars 100 cb) = strip_space_newline (last_chars 100 cb')
        \<and> strip_space_newline cl = strip_space_newline cl'
        \<and> strip_space_newline (take 50 ca) = strip_space_newline (take 50 ca')
      \<longrightarrow> create_cache_key cb ca cl = create_cache_key cb' ca' cl')"
  by (simp add: create_cache_key_norm)

theorem cache_key_from_slices_witness:
  "strip_space_newline (last_chars 100 ''x =  1'') = strip_space_newline (last_chars 100 ''x=1'')
   \<and> strip_space_newline ''y = '' = strip_space_newline ''y=''
   \<and> strip_space_newline (take 50 (''0123456789012345678901234567890123456789012345678 '' @ ''tail one''))
       = strip_space_newline (take 50 (''0123456789012345678901234567890123456789012345678 '' @ ''another tail''))
   \<and> create_cache_key ''x =  1'' (''0123456789012345678901234567890123456789012345678 '' @ ''tail one'') ''y = ''
       = create_cache_key ''x=1'' (''0123456789012345678901234567890123456789012345678 '' @ ''another tail'') ''y=''"
proof -
  have a: "strip_space_newline (last_chars 100 ''x =  1'') = strip_space_newline (last_chars 100 ''x=1'')"
    by (simp add: strip_space_newline_def last_chars_def)
  have b: "strip_space_newline ''y = '' = strip_space_newline ''y=''"
    by (simp add: strip_space_newline_def)
  have c: "strip_space_newline (take 50 (''0123456789012345678901234567890123456789012345678 '' @ ''tail one''))
       = strip_space_newline (take 50 (''0123456789012345678901234567890123456789012345678 '' @ ''another tail''))"
    by simp
  show ?thesis
    using a b c cache_key_from_slices [of "''x =  1''"
        "''0123456789012345678901234567890123456789012345678 '' @ ''tail one''" "''y = ''"
        "''x=1''" "''y=''"
        "''0123456789012345678901234567890123456789012345678 '' @ ''another tail''"]
    by blast
qed

text \<open>
  Whitespace other than the space and the line feed stays in the key: a tab is
  whitespace, the contexts \<open>a<TAB>b\<close> and \<open>ab\<close> agree once whitespace is removed, and their
  keys differ.
\<close>

theorem cache_key_counterexample:
  "filter (\<lambda>c. \<not> isspace c) [CHR ''a'', CHR 0x09, CHR ''b''] = filter (\<lambda>c. \<not> isspace c) ''ab''
   \<and> isspace (CHR 0x09)
   \<and> create_cache_key [CHR ''a'', CHR 0x09, CHR ''b''] [] [] = [CHR ''a'', CHR 0x09, CHR ''b'']
   \<and> create_cache_key ''ab'' [] [] = ''ab''
   \<and> create_cache_key [CHR ''a'', CHR 0x09, CHR ''b''] [] [] \<noteq> create_cache_key ''ab'' [] []"
  by (simp add: create_cache_key_def str_remove_def isspace_def newline_def space_def)

section \<open>Provider failures\<close>

text \<open>
  C8. When the provider raises during \<open>get_completion\<close> (the request passed the rate
  limiter, missed the cache, and the client exists, so the provider is called), the
  exception is caught: \<open>get_completion\<close> returns \<open>None\<close>, records the error text in
  \<open>last_response\<close>, and leaves the cache as it was; the stored request time is the current
  time, as after any admitted request. The provider's outcome is consumed once: there is
  no second call.
\<close>

theorem provider_failure:
  assumes "\<not> fst (should_debounce cfg now (e\<lparr>last_request_prompt := None, last_response := None\<rparr>))"
    and "map_of (completion_cache e) (create_cache_key cb ca cl) = None"
    and "client_ready e"
  shows "get_completion cfg now cb cl ca (ProviderRaises msg) e =
           (Failed msg, e\<lparr>last_request_time := now,
              last_request_prompt := Some (build_completion_prompt cb cl ca),
              last_response := Some (''ERROR: '' @ msg)\<rparr>)
         \<and> returned (fst (get_completion cfg now cb cl ca (ProviderRaises msg) e)) = None
         \<and> completion_cache (snd (get_completion cfg now cb cl ca (ProviderRaises msg) e))
             = completion_cache e"
  using assms
  by (simp add: get_completion_def should_debounce_def Let_def split: if_splits)

theorem provider_failure_witness:
  "\<not> fst (should_debounce Map.empty 1000
        (new_engine\<lparr>last_request_prompt := None, last_response := None\<rparr>))
   \<and> map_of (completion_cache new_engine) (create_cache_key ''a'' ''c'' ''b'') = None
   \<and> client_ready new_engine
   \<and> returned (fst (get_completion Map.empty 1000 ''a'' ''b'' ''c'' (ProviderRaises ''timeout'') new_engine)) = None
   \<and> completion_cache (snd (get_completion Map.empty 1000 ''a'' ''b'' ''c'' (ProviderRaises ''timeout'') new_engine)) = []"
proof -
  have h1: "\<not> fst (should_debounce Map.empty 1000
        (new_engine\<lparr>last_request_prompt := None, last_response := None\<rparr>))"
    by (simp add: should_debounce_def config_get_def new_engine_def)
  have h2: "map_of (completion_cache new_engine) (create_cache_key ''a'' ''c'' ''b'') = None"
    by (simp add: new_engine_def)
  have h3: "client_ready new_engine" by (simp add: new_engine_def)
  have h4: "completion_cache new_engine = []" by (simp add: new_engine_def)
  show ?thesis
    using h1 h2 h3 h4 provider_failure [where msg = "''timeout''", OF h1 h2 h3] by simp
qed

section \<open>The capacity of the cache\<close>

lemma dict_set_length: "length (dict_set k v d) \<le> Suc (length d)"
  by (induction d) auto

lemma dict_del_head_length: "length (dict_del k ((k, v) # d)) \<le> length d"
  by (simp add: dict_del_def)

lemma cache_store_bound: "length c \<le> 50 \<Longrightarrow> length (cache_store k v c) \<le> 50"
proof -
  assume c: "length c \<le> 50"
  show ?thesis
  proof (cases "dict_set k v c")
    case Nil
    then show ?thesis by (simp add: cache_store_def)
  next
    case (Cons kv d)
    obtain k0 v0 where kv: "kv = (k0, v0)" by (cases kv)
    have "length (kv # d) \<le> 51" using dict_set_length [of k v c] c Cons by simp
    then have "length d \<le> 50" by simp
    then have "length (dict_del k0 ((k0, v0) # d)) \<le> 50"
      using dict_del_head_length [of k0 v0 d] by simp
    then show ?thesis using Cons kv by (simp add: cache_store_def Let_def)
  qed
qed

text \<open>
  C9. The capacity of the cache is the constant 50, whatever the
  configuration holds: for every configuration, a cache of at most 50 entries has at most
  50 entries after \<open>get_completion\<close>, so after every store.
\<close>

theorem cache_capacity_fixed:
  "length (completion_cache e) \<le> 50 \<Longrightarrow>
     length (completion_cache (snd (get_completion cfg now cb cl ca p e))) \<le> 50"
  by (simp add: get_completion_cache cache_store_bound split: outcome.splits)

theorem cache_capacity_fixed_witness:
  "length (completion_cache new_engine) \<le> 50
   \<and> length (completion_cache (snd (get_completion [''cacheCapacity'' \<mapsto> 1] 1000 ''a'' ''b'' ''c''
        (ProviderContent ''x'') new_engine))) \<le> 50"
proof -
  have h: "length (completion_cache new_engine) \<le> 50" by (simp add: new_engine_def)
  show ?thesis using h cache_capacity_fixed [OF h] by simp
qed

text \<open>
  The configuration has no entry that the cache reads: with \<open>cacheCapacity\<close> (and
  \<open>cache_capacity\<close>) set to 1, two stores leave two entries in the cache.
\<close>

theorem cache_capacity_counterexample:
  "length (completion_cache
     (run_requests [''cacheCapacity'' \<mapsto> 1, ''cache_capacity'' \<mapsto> 1] new_engine
        [(1000, ''a'', ''b'', ''c'', ProviderContent ''x''),
         (2000, ''d'', ''e'', ''f'', ProviderContent ''y'')])) = 2"
  by (simp add: engine_eval)

section \<open>Properties of the editor\<close>

lemmas editor_eval = request_ai_completion_def get_context_around_cursor_def index_insert_def
  resolve_index_def editor_text_def tk_index_of_def tk_get_def tk_line_end_col_def
  tk_total_lines_def tk_plus_chars_def tk_tagged_def tk_delete_def tk_insert_def
  mark_after_delete_def clear_ghost_text_def accept_completion_def show_completion_def
  new_editor_def str_strip_def isspace_def newline_def Let_def

text \<open>
  C4. When \<open>_show_completion\<close> receives a result and the cursor is no longer at the
  position recorded when the request was issued, the result is discarded: the editor is
  left exactly as it was. No ghost text is inserted, no suggestion is created, and the
  suggestion that may be showing is not touched.
\<close>

theorem stale_response_discarded:
  "index_insert ed \<noteq> cursor_pos \<Longrightarrow> show_completion lower completion cursor_pos ed = ed"
  by (simp add: show_completion_def)

theorem stale_response_discarded_witness:
  "index_insert home_key_state \<noteq> (1, 1)
   \<and> show_completion str_lower ''print(x)'' (1, 1) home_key_state = home_key_state"
proof -
  have h: "index_insert home_key_state \<noteq> (1, 1)"
    by (simp add: home_key_state_def index_insert_def editor_text_def tk_index_of_def)
  show ?thesis using h stale_response_discarded [OF h, of str_lower "''print(x)''"] by simp
qed

lemma take_clamped: "take (min (s + n) (length xs) - s) (drop s xs) = take n (drop s xs)"
  by (cases "s + n \<le> length xs") (simp_all add: min_def)

lemma clear_span:
  "ghost_text_start_pos ed = Some start_pos \<Longrightarrow>
     tk_get (buffer ed) (resolve_index ed start_pos)
        (tk_plus_chars (buffer ed) (resolve_index ed start_pos) (length (current_completion ed)))
       = anchored_span ed"
  by (simp add: tk_get_def tk_plus_chars_def anchored_span_def editor_text_def take_clamped
      take_map drop_map)

lemma clear_inactive: "\<not> suggestion_active ed \<Longrightarrow> clear_ghost_text ed = ed"
  by (auto simp: suggestion_active_def clear_ghost_text_def split: option.splits)

lemma clear_mismatch:
  "suggestion_active ed \<Longrightarrow> anchored_span ed \<noteq> current_completion ed \<Longrightarrow>
     clear_ghost_text ed = ed\<lparr>ghost_text_start_pos := None, current_completion := []\<rparr>"
  by (auto simp: suggestion_active_def clear_ghost_text_def clear_span Let_def
      split: option.splits)

lemma clear_buffer_changed:
  "buffer (clear_ghost_text ed) \<noteq> buffer ed \<Longrightarrow>
     suggestion_active ed \<and> anchored_span ed = current_completion ed"
  by (auto simp: suggestion_active_def clear_ghost_text_def clear_span Let_def
      split: option.splits if_splits)

lemma clear_state:
  "suggestion_active ed \<Longrightarrow>
     ghost_text_start_pos (clear_ghost_text ed) = None \<and> current_completion (clear_ghost_text ed) = []"
  by (auto simp: suggestion_active_def clear_ghost_text_def Let_def split: option.splits)

text \<open>
  C5. \<open>clear_ghost_text\<close> changes the buffer only when a suggestion is active and the span
  at the remembered anchor still holds exactly the remembered text (the code also asks for
  the tag at the anchor). When the span differs, only the two fields are cleared and the
  buffer and the cursor stay as they are. When no suggestion is active the editor is
  returned unchanged; the function has no failing path.
\<close>

theorem dismissal_guarded:
  "(\<not> suggestion_active ed \<longrightarrow> clear_ghost_text ed = ed)
   \<and> (suggestion_active ed \<and> anchored_span ed \<noteq> current_completion ed \<longrightarrow>
        clear_ghost_text ed = ed\<lparr>ghost_text_start_pos := None, current_completion := []\<rparr>)
   \<and> (buffer (clear_ghost_text ed) \<noteq> buffer ed \<longrightarrow>
        suggestion_active ed \<and> anchored_span ed = current_completion ed)
   \<and> (suggestion_active ed \<longrightarrow>
        ghost_text_start_pos (clear_ghost_text ed) = None
        \<and> current_completion (clear_ghost_text ed) = [])"
  using clear_inactive clear_mismatch clear_buffer_changed clear_state by blast

theorem dismissal_guarded_witness:
  "\<not> suggestion_active (new_editor True)
   \<and> clear_ghost_text (new_editor True) = new_editor True
   \<and> suggestion_active edited_span_state
   \<and> anchored_span edited_span_state \<noteq> current_completion edited_span_state
   \<and> clear_ghost_text edited_span_state
       = edited_span_state\<lparr>ghost_text_start_pos := None, current_completion := []\<rparr>
   \<and> buffer (clear_ghost_text home_key_state) \<noteq> buffer home_key_state
   \<and> suggestion_active home_key_state
   \<and> anchored_span home_key_state = current_completion home_key_state
   \<and> ghost_text_start_pos (clear_ghost_text home_key_state) = None"
proof -
  have a: "\<not> suggestion_active (new_editor True)"
    by (simp add: suggestion_active_def new_editor_def)
  have b: "suggestion_active edited_span_state
      \<and> anchored_span edited_span_state \<noteq> current_completion edited_span_state"
    by (simp add: suggestion_active_def anchored_span_def edited_span_state_def
        resolve_index_def editor_text_def newline_def)
  have c: "buffer (clear_ghost_text home_key_state) \<noteq> buffer home_key_state"
    by (simp add: home_key_state_def editor_eval)
  show ?thesis
    using a b c dismissal_guarded [of "new_editor True"] dismissal_guarded [of edited_span_state]
      dismissal_guarded [of home_key_state]
    by blast
qed














lemma clear_consistent: "suggestion_consistent ed \<Longrightarrow> suggestion_consistent (clear_ghost_text ed)"
  by (auto simp: suggestion_consistent_def clear_ghost_text_def Let_def split: option.splits)

lemma accept_consistent: "suggestion_consistent ed \<Longrightarrow> suggestion_consistent (accept_completion ed)"
  by (auto simp: suggestion_consistent_def accept_completion_def Let_def split: option.splits)

lemma show_consistent:
  assumes "suggestion_consistent ed"
  shows "suggestion_consistent (show_completion lower completion cursor_pos ed)"
proof -
  have c: "suggestion_consistent (clear_ghost_text ed)" using assms by (rule clear_consistent)
  show ?thesis using assms c
    by (auto simp: show_completion_def Let_def suggestion_consistent_def split: sum.splits)
qed

lemma clear_pair:
  "suggestion_of (clear_ghost_text ed) = suggestion_of ed
   \<or> suggestion_of (clear_ghost_text ed) = (None, [])"
  by (auto simp: suggestion_of_def clear_ghost_text_def Let_def split: option.splits)

lemma accept_pair:
  "suggestion_of (accept_completion ed) = suggestion_of ed
   \<or> suggestion_of (accept_completion ed) = (None, [])"
  by (auto simp: suggestion_of_def accept_completion_def Let_def split: option.splits)

lemma show_pair:
  "suggestion_of (show_completion lower completion cursor_pos ed) = suggestion_of ed
   \<or> suggestion_of (show_completion lower completion cursor_pos ed) = (None, [])
   \<or> (fst (suggestion_of (show_completion lower completion cursor_pos ed)) = Some cursor_pos
       \<and> snd (suggestion_of (show_completion lower completion cursor_pos ed)) \<noteq> [])"
proof -
  have "suggestion_of (clear_ghost_text ed) = suggestion_of ed
   \<or> suggestion_of (clear_ghost_text ed) = (None, [])" by (rule clear_pair)
  then show ?thesis
    by (auto simp: show_completion_def Let_def suggestion_of_def split: sum.splits)
qed

text \<open>
  C10. The stored position is unset exactly when the stored text is empty: this holds in
  the initial editor and is kept by showing a completion, by dismissal and by acceptance.
  Each of the three leaves the pair of fields as it was, or clears both, or (showing only)
  sets the position to the cursor position together with a text that is not empty. So
  there is at most one suggestion, and its anchor and text go together.
\<close>

theorem suggestion_state_consistent:
  "suggestion_consistent (new_editor engine_ok)
   \<and> (suggestion_consistent ed \<longrightarrow>
        suggestion_consistent (show_completion lower completion cursor_pos ed)
        \<and> suggestion_consistent (clear_ghost_text ed)
        \<and> suggestion_consistent (accept_completion ed))
   \<and> (suggestion_of (show_completion lower completion cursor_pos ed) = suggestion_of ed
        \<or> suggestion_of (show_completion lower completion cursor_pos ed) = (None, [])
        \<or> (fst (suggestion_of (show_completion lower completion cursor_pos ed)) = Some cursor_pos
            \<and> snd (suggestion_of (show_completion lower completion cursor_pos ed)) \<noteq> []))
   \<and> (suggestion_of (clear_ghost_text ed) = suggestion_of ed
        \<or> suggestion_of (clear_ghost_text ed) = (None, []))
   \<and> (suggestion_of (accept_completion ed) = suggestion_of ed
        \<or> suggestion_of (accept_completion ed) = (None, []))"
proof -
  have "suggestion_consistent (new_editor engine_ok)"
    by (simp add: suggestion_consistent_def new_editor_def)
  then show ?thesis
    using show_consistent clear_consistent accept_consistent show_pair clear_pair accept_pair
    by blast
qed

theorem suggestion_state_consistent_witness:
  "suggestion_consistent typing_state
   \<and> suggestion_consistent (show_completion str_lower ''abc'' (1, 2) typing_state)
   \<and> suggestion_of (show_completion str_lower ''abc'' (1, 2) typing_state) = (Some (1, 2), ''c'')
   \<and> suggestion_consistent (clear_ghost_text (show_completion str_lower ''abc'' (1, 2) typing_state))
   \<and> suggestion_consistent (accept_completion (show_completion str_lower ''abc'' (1, 2) typing_state))"
proof -
  have h: "suggestion_consistent typing_state"
    by (simp add: suggestion_consistent_def typing_state_def)
  have s: "suggestion_of (show_completion str_lower ''abc'' (1, 2) typing_state) = (Some (1, 2), ''c'')"
    by (simp add: suggestion_of_def typing_state_def editor_eval str_split_def
        trim_completion_overlap_def startswith_def str_lower_def lower_char_def)
  have h2: "suggestion_consistent (show_completion str_lower ''abc'' (1, 2) typing_state)"
    using h suggestion_state_consistent [of True typing_state str_lower "''abc''" "(1, 2)"] by blast
  show ?thesis
    using h s h2
      suggestion_state_consistent
        [of True "show_completion str_lower ''abc'' (1, 2) typing_state" str_lower "[]" "(1, 1)"]
    by blast
qed

end
